theory Spec2Isabelle
  imports Main "HOL-Library.Char_ord" "HOL-Library.List_Lexorder" "HOL-Library.Multiset"
begin

section \<open>Data model of \<^verbatim>\<open>main.py\<close>\<close>

text \<open>
  The service keeps its state in SQLite. A row of table \<^verbatim>\<open>links\<close> is a record with the
  table's columns; \<^verbatim>\<open>LinkResponse\<close> copies a row field by field, so the same record is used
  for a response. Column \<^verbatim>\<open>id\<close> is called \<open>link_id\<close> here (\<open>id\<close> is HOL's identity).
  Column \<^verbatim>\<open>is_favorite\<close> holds 0 or 1 (every writer stores \<^verbatim>\<open>1 if flag else 0\<close>, every
  reader applies \<^verbatim>\<open>bool\<close>); it is a \<open>bool\<close> here. Integers are Python's unbounded \<open>int\<close>s;
  SQLite's are 64 bits wide, and what happens at that border is part of the writing
  operations below. No column the service writes is \<^verbatim>\<open>NULL\<close>;
  text is a list of bytes (UTF-8), on which SQLite's binary collation and Python's
  comparison of \<^verbatim>\<open>str\<close> agree: both are the lexicographic order of \<open>string\<close>.
\<close>

record link =
  link_id :: int
  title :: string
  url :: string
  icon :: "string option"
  icon_url :: "string option"
  description :: "string option"
  category :: string
  is_favorite :: bool
  usage_count :: int
  sort_index :: int
  created_at :: string

text \<open>\<^verbatim>\<open>class LinkCreate(BaseModel)\<close>; the defaults are applied by the caller.\<close>

record LinkCreate =
  new_title :: string
  new_url :: string
  new_icon :: "string option"
  new_icon_url :: "string option"
  new_description :: "string option"
  new_category :: string
  new_is_favorite :: bool

text \<open>\<^verbatim>\<open>class LinkUpdate(BaseModel)\<close>: every field optional, \<open>None\<close> when absent.\<close>

record LinkUpdate =
  upd_title :: "string option"
  upd_url :: "string option"
  upd_icon :: "string option"
  upd_icon_url :: "string option"
  upd_description :: "string option"
  upd_category :: "string option"
  upd_is_favorite :: "bool option"

text \<open>\<^verbatim>\<open>class LinkReorderItem(BaseModel)\<close>.\<close>

record LinkReorderItem =
  item_id :: int
  item_category :: string
  item_sort_index :: int

text \<open>
  The database: the rows of \<^verbatim>\<open>links\<close> in rowid order, the counter SQLite keeps for the
  \<^verbatim>\<open>AUTOINCREMENT\<close> key of \<^verbatim>\<open>links\<close>, and the two rows of table \<^verbatim>\<open>settings\<close> the catalog
  reads, each \<open>None\<close> when the row is missing and otherwise the list that
  \<^verbatim>\<open>json.loads\<close> gives for its value.
\<close>

record db =
  links :: "link list"
  links_seq :: int
  hidden_categories :: "string list option"
  category_order :: "string list option"

text \<open>
  \<^verbatim>\<open>raise HTTPException(status_code=..., detail=...)\<close>, and the exceptions of the Python
  library that no handler catches; the framework answers those with status 500.
\<close>

datatype error = HTTPException int string | OverflowError | OperationalError | TypeError

fun status_code :: "error \<Rightarrow> int" where
  "status_code (HTTPException code detail) = code"
| "status_code OverflowError = 500"
| "status_code OperationalError = 500"
| "status_code TypeError = 500"

section \<open>Tokens\<close>

text \<open>
  \<^verbatim>\<open>jose.jwt\<close> is a library. A token is modelled by what \<^verbatim>\<open>jwt.decode\<close> reads from it: the
  key and algorithm of its signature and the two claims the service uses. Every string
  that is no well-formed signed token is \<open>Malformed\<close>. Time is in whole seconds, as
  \<^verbatim>\<open>jose\<close> stores and compares it.
\<close>

record claims =
  claim_sub :: "string option"
  claim_exp :: "int option"

datatype token = Malformed | Signed string string claims

datatype jwt_error = JWTError | ExpiredSignatureError

definition jwt_encode :: "claims \<Rightarrow> string \<Rightarrow> string \<Rightarrow> token" where
  "jwt_encode to_encode key algorithm = Signed key algorithm to_encode"

text \<open>
  \<^verbatim>\<open>jwt.decode(token, key, algorithms)\<close>: the signature must be made with \<open>key\<close> and an
  allowed algorithm; a token whose \<^verbatim>\<open>exp\<close> is less than the current time is expired.
\<close>

fun jwt_decode :: "token \<Rightarrow> string \<Rightarrow> string list \<Rightarrow> int \<Rightarrow> jwt_error + claims" where
  "jwt_decode Malformed key algorithms now = Inl JWTError"
| "jwt_decode (Signed k a payload) key algorithms now =
     (if k \<noteq> key \<or> a \<notin> set algorithms then Inl JWTError
      else case claim_exp payload of
             None \<Rightarrow> Inr payload
           | Some e \<Rightarrow> if e < now then Inl ExpiredSignatureError else Inr payload)"

definition ALGORITHM :: string where
  "ALGORITHM = ''HS256''"

definition ACCESS_TOKEN_EXPIRE_HOURS :: int where
  "ACCESS_TOKEN_EXPIRE_HOURS = 24"

text \<open>
  \<^verbatim>\<open>SECRET_KEY\<close> is read from the environment at start-up; it is the first argument of the
  three functions that use it. \<open>now\<close> is \<^verbatim>\<open>datetime.utcnow()\<close> in seconds.
\<close>

definition verify_token :: "string \<Rightarrow> token \<Rightarrow> int \<Rightarrow> error + string" where
  "verify_token SECRET_KEY credentials now =
     (case jwt_decode credentials SECRET_KEY [ALGORITHM] now of
        Inl e \<Rightarrow> Inl (HTTPException 403 ''Invalid or expired token'')
      | Inr payload \<Rightarrow>
          (case claim_sub payload of
             None \<Rightarrow> Inl (HTTPException 403 ''Invalid token'')
           | Some username \<Rightarrow>
               if username \<noteq> ''admin'' then Inl (HTTPException 403 ''Invalid token'')
               else Inr username))"

text \<open>\<^verbatim>\<open>str.lower\<close> on the bytes of a header: the letters A to Z become a to z.\<close>

definition lower_char :: "char \<Rightarrow> char" where
  "lower_char c =
     (if CHR ''A'' \<le> c \<and> c \<le> CHR ''Z'' then char_of (of_char c + (32::nat)) else c)"

definition lower :: "string \<Rightarrow> string" where
  "lower s = map lower_char s"

text \<open>
  The \<^verbatim>\<open>Authorization\<close> header is \<open>None\<close> when absent; otherwise it is given as
  \<^verbatim>\<open>authorization.partition(" ")\<close> splits it: the text before the first space and the
  token after it. An empty header has the empty scheme.
\<close>

definition get_current_user_optional ::
  "string \<Rightarrow> (string \<times> token) option \<Rightarrow> int \<Rightarrow> string option" where
  "get_current_user_optional SECRET_KEY authorization now =
     (case authorization of
        None \<Rightarrow> None
      | Some (scheme, tok) \<Rightarrow>
          if lower scheme \<noteq> ''bearer'' then None
          else (case jwt_decode tok SECRET_KEY [ALGORITHM] now of
                  Inl e \<Rightarrow> None
                | Inr payload \<Rightarrow>
                    if claim_sub payload = Some ''admin'' then claim_sub payload else None))"

definition create_access_token :: "string \<Rightarrow> claims \<Rightarrow> int \<Rightarrow> token" where
  "create_access_token SECRET_KEY data now =
     (let expire = now + ACCESS_TOKEN_EXPIRE_HOURS * 3600;
          to_encode = data\<lparr>claim_exp := Some expire\<rparr>
      in jwt_encode to_encode SECRET_KEY ALGORITHM)"

text \<open>\<^verbatim>\<open>login\<close> issues \<^verbatim>\<open>create_access_token(data={"sub": "admin"})\<close>.\<close>

definition admin_data :: claims where
  "admin_data = \<lparr>claim_sub = Some ''admin'', claim_exp = None\<rparr>"

section \<open>Reading the catalog\<close>

text \<open>
  \<^verbatim>\<open>ORDER BY category ASC, sort_index ASC, created_at DESC\<close>: the comparison of two rows,
  and the sort as a stable insertion sort of the selected rows (SQLite leaves the order
  of rows that tie on all three columns open; here they keep their rowid order).
\<close>

definition order_by_le :: "link \<Rightarrow> link \<Rightarrow> bool" where
  "order_by_le a b \<longleftrightarrow>
     category a < category b \<or>
     (category a = category b \<and>
        (sort_index a < sort_index b \<or>
         (sort_index a = sort_index b \<and> created_at b \<le> created_at a)))"

fun insert_row :: "link \<Rightarrow> link list \<Rightarrow> link list" where
  "insert_row r [] = [r]"
| "insert_row r (x # xs) = (if order_by_le r x then r # x # xs else x # insert_row r xs)"

definition order_by :: "link list \<Rightarrow> link list" where
  "order_by rows = foldr insert_row rows []"

text \<open>Python's truth value of an optional string: \<^verbatim>\<open>None\<close> and \<^verbatim>\<open>""\<close> are false.\<close>

fun truthy :: "string option \<Rightarrow> bool" where
  "truthy None = False"
| "truthy (Some s) = (s \<noteq> [])"

definition get_links :: "db \<Rightarrow> string option \<Rightarrow> bool option \<Rightarrow> string option \<Rightarrow> link list" where
  "get_links d cat favorite current_user =
     (let hidden = (case hidden_categories d of Some v \<Rightarrow> v | None \<Rightarrow> []);
          q0 = links d;
          q1 = (if \<not> truthy current_user \<and> hidden \<noteq> []
                then filter (\<lambda>r. category r \<notin> set hidden) q0 else q0);
          q2 = (if truthy cat then filter (\<lambda>r. Some (category r) = cat) q1 else q1);
          q3 = (case favorite of
                  None \<Rightarrow> q2
                | Some f \<Rightarrow> filter (\<lambda>r. is_favorite r = f) q2)
      in order_by q3)"

text \<open>\<^verbatim>\<open>get_categories\<close>: \<^verbatim>\<open>SELECT DISTINCT category\<close>, then the stored order, then the rest sorted.\<close>

definition get_categories :: "db \<Rightarrow> string list" where
  "get_categories d =
     (let categories = remdups (map category (links d));
          order = (case category_order d of Some v \<Rightarrow> v | None \<Rightarrow> []);
          ordered = filter (\<lambda>c. c \<in> set categories) order;
          remaining = sort (filter (\<lambda>c. c \<notin> set ordered) categories)
      in ordered @ remaining)"

section \<open>Writing the catalog\<close>

text \<open>
  Every operation takes the database and returns its result (\<open>Inl\<close> for a raised
  exception) with the database it leaves behind. The \<^verbatim>\<open>username\<close> that
  \<^verbatim>\<open>Depends(verify_token)\<close> passes to the mutating handlers is not used by their bodies.
\<close>

text \<open>
  The integers SQLite holds. \<^verbatim>\<open>conn.execute\<close> raises \<^verbatim>\<open>OverflowError\<close> when an \<^verbatim>\<open>int\<close> among
  its parameters is outside this range; the statement is not run. A handler that an
  exception leaves has not reached \<^verbatim>\<open>conn.commit()\<close>, and \<^verbatim>\<open>get_db\<close> closes the connection:
  what the handler wrote before is rolled back.
\<close>

definition sqlite_int :: "int \<Rightarrow> bool" where
  "sqlite_int i \<longleftrightarrow> - (2 ^ 63) \<le> i \<and> i < 2 ^ 63"

text \<open>\<^verbatim>\<open>SELECT COALESCE(MAX(sort_index), 0) FROM links WHERE category = ?\<close>.\<close>

definition max_sort_index :: "link list \<Rightarrow> string \<Rightarrow> int" where
  "max_sort_index rows c =
     (case filter (\<lambda>r. category r = c) rows of
        [] \<Rightarrow> 0
      | r # rs \<Rightarrow> fold max (map sort_index rs) (sort_index r))"

text \<open>
  The key of an inserted row: one more than the largest key the table has or ever had
  (\<^verbatim>\<open>INTEGER PRIMARY KEY AUTOINCREMENT\<close>). When the largest possible key has been used, the
  insertion fails (\<^verbatim>\<open>sqlite3.OperationalError\<close>, database or disk is full).
\<close>

definition next_rowid :: "db \<Rightarrow> int" where
  "next_rowid d = fold max (map link_id (links d)) (links_seq d) + 1"

text \<open>
  \<^verbatim>\<open>SELECT * FROM links WHERE id = ?\<close> followed by \<^verbatim>\<open>fetchone()\<close>; building the response from
  \<^verbatim>\<open>None\<close> raises \<^verbatim>\<open>TypeError\<close>.
\<close>

definition fetch_response :: "link list \<Rightarrow> int \<Rightarrow> error + link" where
  "fetch_response rows i =
     (case find (\<lambda>r. link_id r = i) rows of
        None \<Rightarrow> Inl TypeError
      | Some row \<Rightarrow> Inr row)"

text \<open>
  \<open>now\<close> is the \<^verbatim>\<open>CURRENT_TIMESTAMP\<close> of the insertion. \<^verbatim>\<open>next_sort\<close> is a parameter of the
  \<^verbatim>\<open>INSERT\<close>.
\<close>

definition create_link :: "db \<Rightarrow> LinkCreate \<Rightarrow> string \<Rightarrow> (error + link) \<times> db" where
  "create_link d link now =
     (let next_sort = max_sort_index (links d) (new_category link) + 1;
          lastrowid = next_rowid d;
          row = \<lparr>link_id = lastrowid, title = new_title link, url = new_url link,
                 icon = new_icon link, icon_url = new_icon_url link,
                 description = new_description link, category = new_category link,
                 is_favorite = new_is_favorite link, usage_count = 0,
                 sort_index = next_sort, created_at = now\<rparr>;
          d' = d\<lparr>links := links d @ [row], links_seq := lastrowid\<rparr>
      in if \<not> sqlite_int next_sort then (Inl OverflowError, d)
         else if \<not> sqlite_int lastrowid then (Inl OperationalError, d)
         else (fetch_response (links d') lastrowid, d'))"

text \<open>Calls of \<^verbatim>\<open>create_link\<close> in succession, collecting the responses.\<close>

fun create_links :: "db \<Rightarrow> (LinkCreate \<times> string) list \<Rightarrow> (error + link) list \<times> db" where
  "create_links d [] = ([], d)"
| "create_links d ((link, now) # rest) =
     (let (r, d') = create_link d link now;
          (rs, d'') = create_links d' rest
      in (r # rs, d''))"

text \<open>
  The \<^verbatim>\<open>SET\<close> clauses of the dynamic \<^verbatim>\<open>UPDATE\<close>, each with its parameter, and the statement
  \<^verbatim>\<open>UPDATE links SET ... WHERE id = ?\<close>. The only \<^verbatim>\<open>int\<close> among the parameters of the clauses
  is that of \<^verbatim>\<open>sort_index\<close>.
\<close>

datatype assignment =
    SetTitle string
  | SetUrl string
  | SetIcon string
  | SetIconUrl string
  | SetDescription string
  | SetCategory string
  | SetSortIndex int
  | SetIsFavorite bool

fun assign :: "assignment \<Rightarrow> link \<Rightarrow> link" where
  "assign (SetTitle v) r = r\<lparr>title := v\<rparr>"
| "assign (SetUrl v) r = r\<lparr>url := v\<rparr>"
| "assign (SetIcon v) r = r\<lparr>icon := Some v\<rparr>"
| "assign (SetIconUrl v) r = r\<lparr>icon_url := Some v\<rparr>"
| "assign (SetDescription v) r = r\<lparr>description := Some v\<rparr>"
| "assign (SetCategory v) r = r\<lparr>category := v\<rparr>"
| "assign (SetSortIndex v) r = r\<lparr>sort_index := v\<rparr>"
| "assign (SetIsFavorite v) r = r\<lparr>is_favorite := v\<rparr>"

fun bindable :: "assignment \<Rightarrow> bool" where
  "bindable (SetSortIndex v) = sqlite_int v"
| "bindable u = True"

definition update_where_id :: "assignment list \<Rightarrow> int \<Rightarrow> link list \<Rightarrow> link list" where
  "update_where_id updates i rows =
     map (\<lambda>r. if link_id r = i then fold assign updates r else r) rows"

fun opt_set :: "('a \<Rightarrow> assignment) \<Rightarrow> 'a option \<Rightarrow> assignment list" where
  "opt_set f None = []"
| "opt_set f (Some v) = [f v]"

definition build_updates :: "link list \<Rightarrow> link \<Rightarrow> LinkUpdate \<Rightarrow> assignment list" where
  "build_updates rows existing link =
     opt_set SetTitle (upd_title link) @
     opt_set SetUrl (upd_url link) @
     opt_set SetIcon (upd_icon link) @
     opt_set SetIconUrl (upd_icon_url link) @
     opt_set SetDescription (upd_description link) @
     (case upd_category link of
        None \<Rightarrow> []
      | Some c \<Rightarrow>
          SetCategory c #
          (if c \<noteq> category existing
           then [SetSortIndex (max_sort_index rows c + 1)] else [])) @
     opt_set SetIsFavorite (upd_is_favorite link)"

text \<open>
  \<^verbatim>\<open>update_link\<close>: the id is a parameter of the first \<^verbatim>\<open>SELECT\<close>, before the check for a
  missing link; the parameters of the \<^verbatim>\<open>UPDATE\<close> are bound after the check for an empty
  payload.
\<close>

definition update_link :: "db \<Rightarrow> int \<Rightarrow> LinkUpdate \<Rightarrow> (error + link) \<times> db" where
  "update_link d i link =
     (if \<not> sqlite_int i then (Inl OverflowError, d)
      else case find (\<lambda>r. link_id r = i) (links d) of
        None \<Rightarrow> (Inl (HTTPException 404 ''Link not found''), d)
      | Some existing \<Rightarrow>
          (let updates = build_updates (links d) existing link
           in if updates = [] then (Inl (HTTPException 400 ''No fields to update''), d)
              else if \<not> list_all bindable updates then (Inl OverflowError, d)
              else (let d' = d\<lparr>links := update_where_id updates i (links d)\<rparr>
                    in (fetch_response (links d') i, d'))))"

text \<open>
  \<^verbatim>\<open>reorder_links\<close>: one \<^verbatim>\<open>UPDATE\<close> for each item, in order, with the item's \<^verbatim>\<open>sort_index\<close> and
  \<^verbatim>\<open>id\<close> among its parameters; the loop stops at the first item it cannot bind, and the
  commit comes after the loop.
\<close>

definition reorder_item :: "LinkReorderItem \<Rightarrow> link list \<Rightarrow> link list" where
  "reorder_item item rows =
     update_where_id [SetCategory (item_category item), SetSortIndex (item_sort_index item)]
       (item_id item) rows"

fun reorder_loop :: "LinkReorderItem list \<Rightarrow> link list \<Rightarrow> error + link list" where
  "reorder_loop [] rows = Inr rows"
| "reorder_loop (item # items) rows =
     (if \<not> sqlite_int (item_sort_index item) \<or> \<not> sqlite_int (item_id item)
      then Inl OverflowError
      else reorder_loop items (reorder_item item rows))"

definition reorder_links :: "db \<Rightarrow> LinkReorderItem list \<Rightarrow> (error + string) \<times> db" where
  "reorder_links d items =
     (if items = [] then (Inl (HTTPException 400 ''No items to reorder''), d)
      else case reorder_loop items (links d) of
             Inl e \<Rightarrow> (Inl e, d)
           | Inr rows \<Rightarrow> (Inr ''ok'', d\<lparr>links := rows\<rparr>))"

text \<open>
  \<^verbatim>\<open>usage_count + 1\<close> in SQL: SQLite adds 64-bit integers and goes over to floating point
  when the sum leaves their range, so \<open>2 ^ 63 - 1\<close> becomes the floating-point \<open>2 ^ 63\<close>; a
  floating-point number of that size is not changed by adding 1.
\<close>

definition sql_add_one :: "int \<Rightarrow> int" where
  "sql_add_one c = (if sqlite_int c then c + 1 else c)"

text \<open>\<^verbatim>\<open>UPDATE links SET usage_count = usage_count + 1 WHERE id = ?\<close>.\<close>

definition track_click :: "db \<Rightarrow> int \<Rightarrow> (error + string) \<times> db" where
  "track_click d i =
     (if \<not> sqlite_int i then (Inl OverflowError, d)
      else (Inr ''ok'',
            d\<lparr>links := map (\<lambda>r. if link_id r = i
                                then r\<lparr>usage_count := sql_add_one (usage_count r)\<rparr> else r)
                          (links d)\<rparr>))"

text \<open>\<open>n\<close> calls of \<^verbatim>\<open>track_click\<close> with the same id, one after the other.\<close>

fun track_clicks :: "nat \<Rightarrow> db \<Rightarrow> int \<Rightarrow> db" where
  "track_clicks 0 d i = d"
| "track_clicks (Suc n) d i = track_clicks n (snd (track_click d i)) i"

section \<open>Notions and inputs used to state the properties\<close>

text \<open>
  The \<^verbatim>\<open>WHERE\<close> clause that \<^verbatim>\<open>get_links\<close> assembles, as a predicate on a row.
\<close>

definition selected :: "db \<Rightarrow> string option \<Rightarrow> bool option \<Rightarrow> string option \<Rightarrow> link \<Rightarrow> bool" where
  "selected d cat favorite current_user r \<longleftrightarrow>
     (truthy current_user \<or>
        category r \<notin> set (case hidden_categories d of Some v \<Rightarrow> v | None \<Rightarrow> [])) \<and>
     (truthy cat \<longrightarrow> Some (category r) = cat) \<and>
     (case favorite of None \<Rightarrow> True | Some f \<Rightarrow> is_favorite r = f)"

text \<open>
  The order of links as the specification words it: by the position of a link's category
  in the resolved display order, which is what \<^verbatim>\<open>get_categories\<close> returns.
\<close>

fun index_of :: "'a \<Rightarrow> 'a list \<Rightarrow> nat" where
  "index_of x [] = 0"
| "index_of x (y # ys) = (if x = y then 0 else Suc (index_of x ys))"

definition spec_links_order :: "db \<Rightarrow> link list \<Rightarrow> bool" where
  "spec_links_order d rows \<longleftrightarrow>
     sorted_wrt (\<lambda>a b. index_of (category a) (get_categories d)
                      \<le> index_of (category b) (get_categories d)) rows"

text \<open>The payload of \<^verbatim>\<open>update_link\<close> with no field set.\<close>

definition no_fields :: LinkUpdate where
  "no_fields =
     \<lparr>upd_title = None, upd_url = None, upd_icon = None, upd_icon_url = None,
      upd_description = None, upd_category = None, upd_is_favorite = None\<rparr>"

text \<open>Concrete rows, databases and requests.\<close>

definition sample_link :: "int \<Rightarrow> string \<Rightarrow> int \<Rightarrow> string \<Rightarrow> link" where
  "sample_link i c s t =
     \<lparr>link_id = i, title = ''Docs'', url = ''https://example.org'', icon = None,
      icon_url = None, description = None, category = c, is_favorite = False,
      usage_count = 0, sort_index = s, created_at = t\<rparr>"

definition db_order_pref :: db where
  "db_order_pref =
     \<lparr>links = [sample_link 1 ''A'' 1 ''2024-01-01 10:00:00'',
               sample_link 2 ''B'' 1 ''2024-01-01 10:00:01''],
      links_seq = 2, hidden_categories = Some [], category_order = Some [''B'', ''A'']\<rparr>"

definition db_tiebreak :: db where
  "db_tiebreak =
     \<lparr>links = [sample_link 1 ''B'' 1 ''2024-01-01 10:00:00'',
               sample_link 2 ''A'' 2 ''2024-01-01 10:00:01'',
               sample_link 3 ''A'' 1 ''2024-01-01 10:00:02'',
               sample_link 4 ''A'' 1 ''2024-01-01 10:00:03''],
      links_seq = 4, hidden_categories = Some [], category_order = Some [''B'', ''A'']\<rparr>"

definition db_hidden :: db where
  "db_hidden =
     \<lparr>links = [sample_link 1 ''Private'' 1 ''2024-01-01 10:00:00'',
               sample_link 2 ''Public'' 1 ''2024-01-01 10:00:01''],
      links_seq = 2, hidden_categories = Some [''Private''], category_order = Some []\<rparr>"

definition db_repeated_order :: db where
  "db_repeated_order =
     \<lparr>links = [sample_link 1 ''B'' 1 ''2024-01-01 10:00:00''],
      links_seq = 1, hidden_categories = Some [], category_order = Some [''B'', ''B'']\<rparr>"

definition db_abc :: db where
  "db_abc =
     \<lparr>links = [sample_link 1 ''A'' 1 ''2024-01-01 10:00:00'',
               sample_link 2 ''B'' 1 ''2024-01-01 10:00:01'',
               sample_link 3 ''C'' 1 ''2024-01-01 10:00:02''],
      links_seq = 3, hidden_categories = Some [], category_order = Some [''B'', ''A'']\<rparr>"


definition admin_header :: "(string \<times> token) option" where
  "admin_header = Some (''Bearer'', create_access_token ''s3cret'' admin_data 1000)"

definition sample_create :: "string \<Rightarrow> LinkCreate" where
  "sample_create c =
     \<lparr>new_title = ''Wiki'', new_url = ''https://example.net'', new_icon = None,
      new_icon_url = None, new_description = None, new_category = c,
      new_is_favorite = False\<rparr>"

definition move_to :: "string \<Rightarrow> LinkUpdate" where
  "move_to c = no_fields\<lparr>upd_category := Some c\<rparr>"


text \<open>
  The database after a successful reorder that puts link 1 at the last position SQLite
  can hold.
\<close>

definition db_full_a :: db where
  "db_full_a =
     snd (reorder_links db_abc
       [\<lparr>item_id = 1, item_category = ''A'', item_sort_index = 2 ^ 63 - 1\<rparr>])"

section \<open>Auxiliary facts\<close>

subsection \<open>Sorting and selection\<close>

lemma order_by_le_total: "\<not> order_by_le a b \<Longrightarrow> order_by_le b a"
  unfolding order_by_le_def by auto

lemma order_by_le_trans: "order_by_le a b \<Longrightarrow> order_by_le b c \<Longrightarrow> order_by_le a c"
  unfolding order_by_le_def by (elim disjE conjE) auto

lemma mset_insert_row: "mset (insert_row r xs) = add_mset r (mset xs)"
  by (induction xs) simp_all

lemma set_insert_row: "set (insert_row r xs) = insert r (set xs)"
  by (induction xs) auto

lemma sorted_insert_row:
  "sorted_wrt order_by_le xs \<Longrightarrow> sorted_wrt order_by_le (insert_row r xs)"
proof (induction xs)
  case Nil
  show ?case by simp
next
  case (Cons x xs)
  show ?case
  proof (cases "order_by_le r x")
    case True
    have "\<forall>y\<in>set xs. order_by_le r y"
      using Cons.prems True by (auto intro: order_by_le_trans)
    with True Cons.prems show ?thesis by simp
  next
    case False
    then have "order_by_le x r" by (rule order_by_le_total)
    with False Cons show ?thesis by (auto simp: set_insert_row)
  qed
qed

lemma mset_order_by: "mset (order_by rows) = mset rows"
  unfolding order_by_def by (induction rows) (simp_all add: mset_insert_row)

lemma set_order_by: "set (order_by rows) = set rows"
  using mset_order_by [of rows] by (metis set_mset_mset)

lemma sorted_order_by: "sorted_wrt order_by_le (order_by rows)"
  unfolding order_by_def by (induction rows) (simp_all add: sorted_insert_row)

lemma get_links_filter:
  "get_links d cat favorite current_user =
     order_by (filter (selected d cat favorite current_user) (links d))"
  unfolding get_links_def Let_def selected_def
  by (cases favorite; cases "truthy cat"; cases "truthy current_user";
      cases "hidden_categories d")
     (auto intro!: arg_cong [where f = order_by] filter_cong)

lemmas eval_defs =
  get_links_def get_categories_def order_by_def order_by_le_def sample_link_def Let_def

subsection \<open>Identity\<close>

lemma verify_issued:
  "verify_token key (create_access_token key admin_data t0) t1 =
     (if t0 + 24 * 3600 < t1 then Inl (HTTPException 403 ''Invalid or expired token'')
      else Inr ''admin'')"
  by (simp add: verify_token_def create_access_token_def admin_data_def jwt_encode_def
      ALGORITHM_def ACCESS_TOKEN_EXPIRE_HOURS_def Let_def)

lemma optional_user_cases:
  "get_current_user_optional key authorization now = None \<or>
   get_current_user_optional key authorization now = Some ''admin''"
  by (auto simp: get_current_user_optional_def split: option.splits sum.splits prod.splits)

lemma optional_user_admin_iff:
  "get_current_user_optional key authorization now = Some ''admin'' \<longleftrightarrow>
     (\<exists>scheme tok. authorization = Some (scheme, tok) \<and> lower scheme = ''bearer'' \<and>
        verify_token key tok now = Inr ''admin'')"
  by (auto simp: get_current_user_optional_def verify_token_def
      split: option.splits sum.splits prod.splits)

lemma lower_Bearer: "lower ''Bearer'' = ''bearer''"
  by code_simp

subsection \<open>Sort positions and keys\<close>

lemma fold_max_init: "(a::int) \<le> fold max xs a"
  by (induction xs arbitrary: a) (auto intro: order_trans [OF max.cobounded2])

lemma fold_max_mem: "(x::int) \<in> set xs \<Longrightarrow> x \<le> fold max xs a"
proof (induction xs arbitrary: a)
  case Nil
  then show ?case by simp
next
  case (Cons y ys)
  show ?case
  proof (cases "x = y")
    case True
    have "max y a \<le> fold max ys (max y a)" by (rule fold_max_init)
    with True show ?thesis by simp
  next
    case False
    with Cons show ?thesis by simp
  qed
qed

lemma max_sort_index_none:
  "\<forall>x \<in> set rows. category x \<noteq> c \<Longrightarrow> max_sort_index rows c = 0"
  by (simp add: max_sort_index_def filter_empty_conv [THEN iffD2])

lemma max_sort_index_Max:
  assumes "\<exists>x \<in> set rows. category x = c"
  shows "max_sort_index rows c = Max (sort_index ` {x \<in> set rows. category x = c})"
proof -
  obtain y ys where f: "filter (\<lambda>r. category r = c) rows = y # ys"
    using assms by (cases "filter (\<lambda>r. category r = c) rows") (auto simp: filter_empty_conv)
  have "sort_index ` {x \<in> set rows. category x = c} = set (map sort_index (y # ys))"
    unfolding f [symmetric] by auto
  then have "Max (sort_index ` {x \<in> set rows. category x = c})
       = fold max (map sort_index ys) (sort_index y)"
    by (simp only: list.map Max.set_eq_fold)
  with f show ?thesis by (simp add: max_sort_index_def)
qed

lemma max_sort_index_eq:
  "max_sort_index rows c =
     (if \<exists>x \<in> set rows. category x = c
      then Max (sort_index ` {x \<in> set rows. category x = c}) else 0)"
  using max_sort_index_Max [of rows c] max_sort_index_none [of rows c] by auto

lemma max_sort_index_upper:
  assumes "x \<in> set rows" and "category x = c"
  shows "sort_index x \<le> max_sort_index rows c"
proof -
  have "sort_index x \<in> sort_index ` {x \<in> set rows. category x = c}"
    using assms by auto
  then have "sort_index x \<le> Max (sort_index ` {x \<in> set rows. category x = c})"
    by (intro Max_ge) auto
  moreover have "\<exists>x \<in> set rows. category x = c" using assms by auto
  ultimately show ?thesis by (simp add: max_sort_index_Max)
qed

lemma max_sort_index_snoc:
  assumes "category row = c" and "sort_index row = max_sort_index rows c + 1"
  shows "max_sort_index (rows @ [row]) c = max_sort_index rows c + 1"
proof (cases "filter (\<lambda>r. category r = c) rows")
  case Nil
  with assms show ?thesis by (simp add: max_sort_index_def)
next
  case (Cons y ys)
  with assms show ?thesis by (simp add: max_sort_index_def)
qed

lemma find_snoc_fresh:
  "\<forall>x \<in> set xs. \<not> P x \<Longrightarrow> P y \<Longrightarrow> find P (xs @ [y]) = Some y"
  by (induction xs) simp_all

lemma next_rowid_fresh: "x \<in> set (links d) \<Longrightarrow> link_id x < next_rowid d"
  using fold_max_mem [of "link_id x" "map link_id (links d)" "links_seq d"]
  by (simp add: next_rowid_def)

subsection \<open>Updating a link\<close>

lemma link_id_assign: "link_id (assign u r) = link_id r"
  by (cases u) simp_all

lemma link_id_fold_assign: "link_id (fold assign us r) = link_id r"
  by (induction us arbitrary: r) (simp_all add: link_id_assign)

lemma find_update_where_id:
  "find (\<lambda>r. link_id r = i) (update_where_id us i rows) =
     map_option (fold assign us) (find (\<lambda>r. link_id r = i) rows)"
  by (induction rows) (simp_all add: update_where_id_def link_id_fold_assign)

lemma find_id_None: "find (\<lambda>r. link_id r = i) rows = None \<longleftrightarrow> i \<notin> link_id ` set rows"
  by (auto simp: find_None_iff)

lemma sort_index_opt_set:
  "\<forall>v. sort_index (assign (f v) r) = sort_index r \<Longrightarrow>
   sort_index (fold assign (opt_set f x) r) = sort_index r"
  by (cases x) simp_all

lemma category_opt_set:
  "\<forall>v. category (assign (f v) r) = category r \<Longrightarrow>
   category (fold assign (opt_set f x) r) = category r"
  by (cases x) simp_all

lemma sort_index_build_updates:
  "sort_index (fold assign (build_updates rows existing link) r) =
     (case upd_category link of
        None \<Rightarrow> sort_index r
      | Some c \<Rightarrow> if c \<noteq> category existing then max_sort_index rows c + 1 else sort_index r)"
  by (simp add: build_updates_def sort_index_opt_set split: option.split)

lemma category_build_updates:
  "category (fold assign (build_updates rows existing link) r) =
     (case upd_category link of None \<Rightarrow> category r | Some c \<Rightarrow> c)"
  by (simp add: build_updates_def category_opt_set split: option.split)

lemma build_updates_no_fields: "build_updates rows existing no_fields = []"
  by (simp add: build_updates_def no_fields_def)

lemma build_updates_Nil_iff:
  "build_updates rows existing link = [] \<longleftrightarrow> link = no_fields"
proof
  assume e: "build_updates rows existing link = []"
  have n: "\<And>f x. opt_set f x = [] \<Longrightarrow> x = None"
    subgoal for f x by (cases x) simp_all
    done
  from e have "upd_title link = None" "upd_url link = None" "upd_icon link = None"
    "upd_icon_url link = None" "upd_description link = None" "upd_category link = None"
    "upd_is_favorite link = None"
    by (auto simp: build_updates_def dest: n split: option.splits)
  then show "link = no_fields" by (cases link) (simp add: no_fields_def)
next
  assume "link = no_fields"
  then show "build_updates rows existing link = []" by (simp add: build_updates_no_fields)
qed

subsection \<open>Reordering\<close>




subsection \<open>Click counting\<close>

lemma sql_add_one_funpow:
  "sqlite_int c \<Longrightarrow> sqlite_int (c + int n) \<Longrightarrow> (sql_add_one ^^ n) c = c + int n"
proof (induction n)
  case 0
  show ?case by simp
next
  case (Suc n)
  from Suc.prems have r: "sqlite_int (c + int n)" by (simp add: sqlite_int_def)
  with Suc have h: "(sql_add_one ^^ n) c = c + int n" by simp
  have "(sql_add_one ^^ Suc n) c = sql_add_one ((sql_add_one ^^ n) c)" by simp
  also have "\<dots> = sql_add_one (c + int n)" by (simp only: h)
  also have "\<dots> = c + int (Suc n)" using r by (simp add: sql_add_one_def)
  finally show ?case .
qed

lemma track_click_links:
  "sqlite_int i \<Longrightarrow>
   links (snd (track_click d i)) =
     map (\<lambda>r. if link_id r = i then r\<lparr>usage_count := sql_add_one (usage_count r)\<rparr> else r)
       (links d)"
  by (simp add: track_click_def)

lemma track_click_rest: "snd (track_click d i) = d\<lparr>links := links (snd (track_click d i))\<rparr>"
  by (simp add: track_click_def)

lemma track_clicks_links:
  "sqlite_int i \<Longrightarrow>
   links (track_clicks n d i) =
     map (\<lambda>r. if link_id r = i
              then r\<lparr>usage_count := (sql_add_one ^^ n) (usage_count r)\<rparr> else r) (links d)"
proof (induction n arbitrary: d)
  case 0
  show ?case by (simp add: map_idI)
next
  case (Suc n)
  have "links (track_clicks (Suc n) d i) = links (track_clicks n (snd (track_click d i)) i)"
    by simp
  also have "\<dots> = map (\<lambda>r. if link_id r = i
              then r\<lparr>usage_count := (sql_add_one ^^ n) (usage_count r)\<rparr> else r)
        (links (snd (track_click d i)))"
    using Suc by simp
  also have "\<dots> = map (\<lambda>r. if link_id r = i
              then r\<lparr>usage_count := (sql_add_one ^^ Suc n) (usage_count r)\<rparr> else r) (links d)"
    unfolding track_click_links [OF Suc.prems] map_map
    by (intro map_cong refl) (simp add: funpow_swap1)
  finally show ?case .
qed

lemma track_clicks_out_of_range: "\<not> sqlite_int i \<Longrightarrow> track_clicks n d i = d"
  by (induction n) (simp_all add: track_click_def)

subsection \<open>Failure and success of update\<close>

lemma bindable_build_updates:
  "list_all bindable (build_updates rows existing link) \<longleftrightarrow>
     (case upd_category link of
        None \<Rightarrow> True
      | Some c \<Rightarrow> c \<noteq> category existing \<longrightarrow> sqlite_int (max_sort_index rows c + 1))"
proof -
  have o: "\<And>f x. (\<And>v. bindable (f v)) \<Longrightarrow> list_all bindable (opt_set f x)"
    subgoal for f x by (cases x) simp_all
    done
  show ?thesis
    by (simp add: build_updates_def o split: option.split)
qed

lemma update_link_success:
  assumes "sqlite_int i"
    and "find (\<lambda>r. link_id r = i) (links d) = Some existing"
    and "build_updates (links d) existing link \<noteq> []"
    and "list_all bindable (build_updates (links d) existing link)"
  shows "update_link d i link =
     (Inr (fold assign (build_updates (links d) existing link) existing),
      d\<lparr>links := update_where_id (build_updates (links d) existing link) i (links d)\<rparr>)"
  using assms by (simp add: update_link_def Let_def fetch_response_def find_update_where_id)

lemma update_link_cases:
  assumes "find (\<lambda>r. link_id r = i) (links d) = Some existing"
  shows "update_link d i link = (Inl (HTTPException 400 ''No fields to update''), d) \<or>
     update_link d i link = (Inl OverflowError, d) \<or>
     update_link d i link =
     (Inr (fold assign (build_updates (links d) existing link) existing),
      d\<lparr>links := update_where_id (build_updates (links d) existing link) i (links d)\<rparr>)"
  using assms by (simp add: update_link_def Let_def fetch_response_def find_update_where_id)

lemma update_link_failure_unchanged:
  assumes "update_link d i link = (Inl e, d')"
  shows "d' = d"
proof (cases "find (\<lambda>r. link_id r = i) (links d)")
  case None
  with assms show ?thesis by (auto simp: update_link_def split: if_splits)
next
  case (Some existing)
  from update_link_cases [OF Some, of link] assms show ?thesis by auto
qed

lemma db_full_a_links:
  "db_full_a = db_abc\<lparr>links :=
     [sample_link 1 ''A'' (2 ^ 63 - 1) ''2024-01-01 10:00:00'',
      sample_link 2 ''B'' 1 ''2024-01-01 10:00:01'',
      sample_link 3 ''C'' 1 ''2024-01-01 10:00:02'']\<rparr>"
  by (simp add: db_full_a_def reorder_links_def reorder_item_def update_where_id_def
      sqlite_int_def db_abc_def sample_link_def)

subsection \<open>The reorder loop\<close>


lemma reorder_links_failure_unchanged: "reorder_links d items = (Inl e, d') \<Longrightarrow> d' = d"
  by (auto simp: reorder_links_def split: if_splits sum.splits)





subsection \<open>Creating links\<close>

lemma create_link_result:
  assumes "sqlite_int (max_sort_index (links d) (new_category link) + 1)"
    and "sqlite_int (next_rowid d)"
  shows "create_link d link now =
     (let row = \<lparr>link_id = next_rowid d, title = new_title link, url = new_url link,
                 icon = new_icon link, icon_url = new_icon_url link,
                 description = new_description link, category = new_category link,
                 is_favorite = new_is_favorite link, usage_count = 0,
                 sort_index = max_sort_index (links d) (new_category link) + 1,
                 created_at = now\<rparr>
      in (Inr row, d\<lparr>links := links d @ [row], links_seq := next_rowid d\<rparr>))"
proof -
  have "\<forall>x \<in> set (links d). \<not> link_id x = next_rowid d"
    using next_rowid_fresh [of _ d] by fastforce
  with assms show ?thesis
    by (simp add: create_link_def Let_def fetch_response_def find_snoc_fresh)
qed

lemma fold_max_bounded: "\<forall>x \<in> set xs. x \<le> (a::int) \<Longrightarrow> fold max xs a = a"
  by (induction xs) (simp_all add: max_absorb2)

lemma next_rowid_after_insert:
  assumes "link_id row = next_rowid d"
  shows "next_rowid (d\<lparr>links := links d @ [row], links_seq := next_rowid d\<rparr>) = next_rowid d + 1"
proof -
  have "\<forall>x \<in> set (map link_id (links d @ [row])). x \<le> next_rowid d"
    using next_rowid_fresh [of _ d] assms by fastforce
  then have "fold max (map link_id (links d @ [row])) (next_rowid d) = next_rowid d"
    by (rule fold_max_bounded)
  then show ?thesis by (simp add: next_rowid_def [of "d\<lparr>links := _, links_seq := _\<rparr>"])
qed

lemma create_links_sort_index:
  assumes "\<forall>p \<in> set news. new_category (fst p) = c"
    and "- (2 ^ 63) \<le> max_sort_index (links d) c + 1"
    and "max_sort_index (links d) c + int (length news) < 2 ^ 63"
    and "- (2 ^ 63) \<le> next_rowid d"
    and "next_rowid d + int (length news) \<le> 2 ^ 63"
  shows "\<exists>rs. fst (create_links d news) = map Inr rs \<and>
        map sort_index rs =
          map (\<lambda>k. max_sort_index (links d) c + int k) [1..<Suc (length news)]"
  using assms
proof (induction news arbitrary: d)
  case Nil
  show ?case by simp
next
  case (Cons p news)
  obtain link now where p: "p = (link, now)" by (cases p)
  from Cons.prems(1) p have c: "new_category link = c" by simp
  have b1: "sqlite_int (max_sort_index (links d) (new_category link) + 1)"
    using Cons.prems(2,3) c by (simp add: sqlite_int_def)
  have b2: "sqlite_int (next_rowid d)"
    using Cons.prems(4,5) by (simp add: sqlite_int_def)
  define r where "r = \<lparr>link_id = next_rowid d, title = new_title link, url = new_url link,
                 icon = new_icon link, icon_url = new_icon_url link,
                 description = new_description link, category = new_category link,
                 is_favorite = new_is_favorite link, usage_count = 0,
                 sort_index = max_sort_index (links d) (new_category link) + 1,
                 created_at = now\<rparr>"
  define d1 where "d1 = d\<lparr>links := links d @ [r], links_seq := next_rowid d\<rparr>"
  have cl: "create_link d link now = (Inr r, d1)"
    unfolding r_def d1_def using create_link_result [OF b1 b2, of now] by (simp add: Let_def)
  have r: "sort_index r = max_sort_index (links d) c + 1" "category r = c"
    "link_id r = next_rowid d"
    using c by (simp_all add: r_def)
  have l1: "links d1 = links d @ [r]" by (simp add: d1_def)
  have m: "max_sort_index (links d1) c = max_sort_index (links d) c + 1"
    unfolding l1 using r by (intro max_sort_index_snoc) simp_all
  have n: "next_rowid d1 = next_rowid d + 1"
    unfolding d1_def using r(3) by (rule next_rowid_after_insert)
  have "\<exists>rs. fst (create_links d1 news) = map Inr rs \<and>
        map sort_index rs =
          map (\<lambda>k. max_sort_index (links d1) c + int k) [1..<Suc (length news)]"
  proof (rule Cons.IH)
    show "\<forall>p \<in> set news. new_category (fst p) = c" using Cons.prems(1) by simp
    show "- (2 ^ 63) \<le> max_sort_index (links d1) c + 1" using Cons.prems(2) m by simp
    show "max_sort_index (links d1) c + int (length news) < 2 ^ 63"
      using Cons.prems(3) m by simp
    show "- (2 ^ 63) \<le> next_rowid d1" using Cons.prems(4) n by simp
    show "next_rowid d1 + int (length news) \<le> 2 ^ 63" using Cons.prems(5) n by simp
  qed
  then obtain rs where
    rs: "fst (create_links d1 news) = map Inr rs"
        "map sort_index rs = map (\<lambda>k. max_sort_index (links d1) c + int k) [1..<Suc (length news)]"
    by blast
  have "[1..<Suc (Suc (length news))] = 1 # [Suc 1..<Suc (Suc (length news))]"
    by (rule upt_conv_Cons) simp
  also have "[Suc 1..<Suc (Suc (length news))] = map Suc [1..<Suc (length news)]"
    by (rule map_Suc_upt [symmetric])
  finally have "[1..<Suc (Suc (length news))] = 1 # map Suc [1..<Suc (length news)]" .
  then have "map (\<lambda>k. max_sort_index (links d) c + int k) [1..<Suc (length (p # news))]
      = (max_sort_index (links d) c + 1) #
        map (\<lambda>k. max_sort_index (links d1) c + int k) [1..<Suc (length news)]"
    by (simp add: m o_def algebra_simps)
  with rs r have "map sort_index (r # rs) =
      map (\<lambda>k. max_sort_index (links d) c + int k) [1..<Suc (length (p # news))]"
    by simp
  moreover have "fst (create_links d (p # news)) = map Inr (r # rs)"
    using p cl rs by (simp add: split_beta)
  ultimately show ?case by blast
qed

section \<open>The properties\<close>

subsection \<open>C1: the order of the links list\<close>

text \<open>
  \<^verbatim>\<open>get_links\<close> does not read \<^verbatim>\<open>category_order\<close>. With links in categories A and B and the
  stored order B, A, the list comes back with A first, which is not the order by display
  position.
\<close>

theorem get_links_ignores_category_order:
  "\<not> spec_links_order db_order_pref (get_links db_order_pref None None None)"
  by (simp add: spec_links_order_def db_order_pref_def eval_defs)

text \<open>
  Claim C1, amended: for every call of the links list operation, the returned sequence is
  ordered by category ascending in the order of the category strings themselves (the
  stored \<^verbatim>\<open>category_order\<close> is not consulted), then by \<^verbatim>\<open>sort_index\<close> ascending within a
  category, then by \<^verbatim>\<open>created_at\<close> descending.
\<close>

theorem get_links_order:
  "sorted_wrt (\<lambda>a b. category a < category b \<or>
                 (category a = category b \<and>
                    (sort_index a < sort_index b \<or>
                     (sort_index a = sort_index b \<and> created_at b \<le> created_at a))))
     (get_links d cat favorite current_user)"
  using sorted_order_by [of "filter (selected d cat favorite current_user) (links d)"]
  unfolding get_links_filter order_by_le_def [abs_def] .

theorem get_links_order_witness:
  "map link_id (get_links db_tiebreak None None None) = [4, 3, 2, 1] \<and>
   sorted_wrt (\<lambda>a b. category a < category b \<or>
                 (category a = category b \<and>
                    (sort_index a < sort_index b \<or>
                     (sort_index a = sort_index b \<and> created_at b \<le> created_at a))))
     (get_links db_tiebreak None None None)"
  using get_links_order [of db_tiebreak None None None]
  by (simp add: db_tiebreak_def eval_defs)

subsection \<open>C2: hidden categories and the caller's identity\<close>

text \<open>
  Claim C2: whatever the store holds, a links list call whose caller resolves to no
  identity returns no link of a category in \<^verbatim>\<open>hidden_categories\<close>, and a call whose caller
  resolves to the admin returns exactly the links that match the category and favorite
  filters, those of hidden categories included. The optional identity is never anything
  but one of the two (\<open>optional_user_cases\<close>).
\<close>

theorem hidden_categories_by_identity:
  "(get_current_user_optional key authorization now = None \<longrightarrow>
      (\<forall>r \<in> set (get_links d cat favorite (get_current_user_optional key authorization now)).
         category r \<notin> set (case hidden_categories d of Some v \<Rightarrow> v | None \<Rightarrow> []))) \<and>
   (get_current_user_optional key authorization now = Some ''admin'' \<longrightarrow>
      mset (get_links d cat favorite (get_current_user_optional key authorization now)) =
      mset (filter (\<lambda>r. (truthy cat \<longrightarrow> Some (category r) = cat) \<and>
                         (case favorite of None \<Rightarrow> True | Some f \<Rightarrow> is_favorite r = f))
              (links d)))"
  by (auto simp: get_links_filter set_order_by mset_order_by selected_def
      intro!: arg_cong [where f = mset] filter_cong)

theorem hidden_categories_by_identity_witness:
  "get_current_user_optional ''s3cret'' None 2000 = None \<and>
   map category (get_links db_hidden None None (get_current_user_optional ''s3cret'' None 2000))
     = [''Public''] \<and>
   get_current_user_optional ''s3cret'' admin_header 2000 = Some ''admin'' \<and>
   mset (get_links db_hidden None None (get_current_user_optional ''s3cret'' admin_header 2000))
     = mset (links db_hidden)"
  using hidden_categories_by_identity [of "''s3cret''" None 2000 db_hidden None None]
    hidden_categories_by_identity [of "''s3cret''" admin_header 2000 db_hidden None None]
  by (simp add: db_hidden_def eval_defs get_current_user_optional_def admin_header_def
      create_access_token_def admin_data_def jwt_encode_def ALGORITHM_def
      ACCESS_TOKEN_EXPIRE_HOURS_def lower_Bearer)

subsection \<open>C3: the categories endpoint and hidden categories\<close>

text \<open>
  \<^verbatim>\<open>get_categories\<close> takes no identity and does not read \<^verbatim>\<open>hidden_categories\<close>: a hidden
  category that has a link is returned to every caller.
\<close>

theorem get_categories_shows_hidden:
  "hidden_categories db_hidden = Some [''Private''] \<and>
   ''Private'' \<in> set (get_categories db_hidden)"
  by (simp add: db_hidden_def eval_defs)

text \<open>
  Claim C3, amended: the categories read endpoint resolves no identity and filters
  nothing: for every caller it returns exactly the categories present among the links,
  whether or not they are in \<^verbatim>\<open>hidden_categories\<close>.
\<close>

theorem get_categories_all:
  "set (get_categories d) = category ` set (links d)"
  by (auto simp: get_categories_def Let_def)

theorem get_categories_all_witness:
  "set (get_categories db_hidden) = {''Private'', ''Public''}"
  using get_categories_all [of db_hidden] by (simp add: db_hidden_def sample_link_def)

subsection \<open>C4: a created link goes to the end of its category\<close>

text \<open>
  A reorder can give a link the \<^verbatim>\<open>sort_index\<close> \<open>2 ^ 63 - 1\<close>. The next link created in that
  category would get \<open>2 ^ 63\<close>, which the \<^verbatim>\<open>INSERT\<close> cannot bind: the call raises
  \<^verbatim>\<open>OverflowError\<close> and inserts nothing.
\<close>

theorem create_link_overflow:
  "fst (reorder_links db_abc
       [\<lparr>item_id = 1, item_category = ''A'', item_sort_index = 2 ^ 63 - 1\<rparr>]) = Inr ''ok'' \<and>
   create_link db_full_a (sample_create ''A'') ''2024-02-01 08:00:00''
     = (Inl OverflowError, db_full_a)"
  unfolding db_full_a_links
  by (simp add: create_link_def max_sort_index_def sample_create_def
      reorder_links_def reorder_item_def update_where_id_def
      sqlite_int_def db_abc_def sample_link_def Let_def)

text \<open>
  Claim C4, amended: every call of \<^verbatim>\<open>create_link\<close> for which the new \<^verbatim>\<open>sort_index\<close> (one more
  than the largest \<^verbatim>\<open>sort_index\<close> among the links of the given category, or than 0 when the
  category has no link) and the new key are within SQLite's signed 64-bit integers
  succeeds and appends a row with that \<^verbatim>\<open>sort_index\<close>; so creating N links in succession in
  a category that had no link gives them the \<^verbatim>\<open>sort_index\<close> values 1 to N in the order of
  creation, for every N below \<open>2 ^ 63\<close> for which the N new keys are within those integers.
\<close>

theorem create_link_appends:
  "(sqlite_int ((if \<exists>x \<in> set (links d). category x = new_category link
                 then Max (sort_index ` {x \<in> set (links d). category x = new_category link})
                 else 0) + 1) \<and>
    sqlite_int (next_rowid d) \<longrightarrow>
      (\<exists>r d'. create_link d link now = (Inr r, d') \<and> links d' = links d @ [r] \<and>
         category r = new_category link \<and>
         sort_index r =
           (if \<exists>x \<in> set (links d). category x = new_category link
            then Max (sort_index ` {x \<in> set (links d). category x = new_category link})
            else 0) + 1)) \<and>
   ((\<forall>x \<in> set (links d). category x \<noteq> c) \<and> (\<forall>p \<in> set news. new_category (fst p) = c) \<and>
    int (length news) < 2 ^ 63 \<and>
    - (2 ^ 63) \<le> next_rowid d \<and> next_rowid d + int (length news) \<le> 2 ^ 63 \<longrightarrow>
      (\<exists>rs. fst (create_links d news) = map Inr rs \<and>
            map sort_index rs = map int [1..<Suc (length news)]))"
proof (intro conjI impI)
  assume a: "sqlite_int ((if \<exists>x \<in> set (links d). category x = new_category link
                 then Max (sort_index ` {x \<in> set (links d). category x = new_category link})
                 else 0) + 1) \<and>
    sqlite_int (next_rowid d)"
  then have "sqlite_int (max_sort_index (links d) (new_category link) + 1)"
    by (simp only: max_sort_index_eq)
  with a show "\<exists>r d'. create_link d link now = (Inr r, d') \<and> links d' = links d @ [r] \<and>
       category r = new_category link \<and>
       sort_index r =
         (if \<exists>x \<in> set (links d). category x = new_category link
          then Max (sort_index ` {x \<in> set (links d). category x = new_category link})
          else 0) + 1"
    by (simp add: create_link_result Let_def max_sort_index_eq)
next
  assume a: "(\<forall>x \<in> set (links d). category x \<noteq> c) \<and>
    (\<forall>p \<in> set news. new_category (fst p) = c) \<and>
    int (length news) < 2 ^ 63 \<and>
    - (2 ^ 63) \<le> next_rowid d \<and> next_rowid d + int (length news) \<le> 2 ^ 63"
  then have m: "max_sort_index (links d) c = 0" by (simp add: max_sort_index_none)
  have "\<exists>rs. fst (create_links d news) = map Inr rs \<and>
        map sort_index rs =
          map (\<lambda>k. max_sort_index (links d) c + int k) [1..<Suc (length news)]"
    using a by (intro create_links_sort_index) (simp_all add: m)
  then show "\<exists>rs. fst (create_links d news) = map Inr rs \<and>
            map sort_index rs = map int [1..<Suc (length news)]"
    by (simp add: m)
qed

theorem create_link_appends_witness:
  "''D'' \<notin> category ` set (links db_abc) \<and> next_rowid db_abc = 4 \<and>
   (\<exists>rs. fst (create_links db_abc
                 [(sample_create ''D'', ''2024-02-01 08:00:00''),
                  (sample_create ''D'', ''2024-02-01 08:00:05''),
                  (sample_create ''D'', ''2024-02-01 08:00:09'')]) = map Inr rs \<and>
         map sort_index rs = [1, 2, 3])"
  using create_link_appends [of db_abc "sample_create ''D''" "''''" "''D''"
      "[(sample_create ''D'', ''2024-02-01 08:00:00''),
        (sample_create ''D'', ''2024-02-01 08:00:05''),
        (sample_create ''D'', ''2024-02-01 08:00:09'')]"]
  by (simp add: db_abc_def sample_link_def sample_create_def upt_rec next_rowid_def)

subsection \<open>C5: moving a link with update\<close>

text \<open>
  When the destination holds a link with the \<^verbatim>\<open>sort_index\<close> \<open>2 ^ 63 - 1\<close> (a reorder can put
  one there), the recomputed \<^verbatim>\<open>sort_index\<close> cannot be bound: the move raises
  \<^verbatim>\<open>OverflowError\<close> and writes nothing.
\<close>

theorem update_link_move_overflow:
  "fst (reorder_links db_abc
       [\<lparr>item_id = 1, item_category = ''A'', item_sort_index = 2 ^ 63 - 1\<rparr>]) = Inr ''ok'' \<and>
   update_link db_full_a 2 (move_to ''A'') = (Inl OverflowError, db_full_a)"
  unfolding db_full_a_links
  by (simp add: update_link_def build_updates_def max_sort_index_def move_to_def no_fields_def
      reorder_links_def reorder_item_def update_where_id_def
      sqlite_int_def db_abc_def sample_link_def Let_def)

text \<open>
  Claim C5, amended: let \<open>existing\<close> be the link with the given id. When the payload of
  \<^verbatim>\<open>update_link\<close> sets \<^verbatim>\<open>category\<close> to another value than the link's, and one more than the
  largest \<^verbatim>\<open>sort_index\<close> in the destination (than 0 when the destination has no link) is
  within SQLite's signed 64-bit integers, the update succeeds and the link gets that
  category and that \<^verbatim>\<open>sort_index\<close>, so it is greater than that of every link there and is 1
  for an empty destination. When the payload leaves the category out or repeats the
  current one, a successful update keeps the \<^verbatim>\<open>sort_index\<close>. The payload has no
  \<^verbatim>\<open>sort_index\<close> field: two payloads with the same \<^verbatim>\<open>category\<close> give the same \<^verbatim>\<open>sort_index\<close>.
\<close>

theorem update_link_moves_to_end:
  assumes "find (\<lambda>r. link_id r = i) (links d) = Some existing" and "sqlite_int i"
  shows
  "(\<forall>c. upd_category link = Some c \<and> c \<noteq> category existing \<and>
        sqlite_int ((if \<exists>x \<in> set (links d). category x = c
                     then Max (sort_index ` {x \<in> set (links d). category x = c}) else 0) + 1)
        \<longrightarrow>
      (\<exists>r d'. update_link d i link = (Inr r, d') \<and>
          find (\<lambda>r. link_id r = i) (links d') = Some r \<and> category r = c \<and>
          sort_index r =
            (if \<exists>x \<in> set (links d). category x = c
             then Max (sort_index ` {x \<in> set (links d). category x = c}) else 0) + 1 \<and>
          (\<forall>x \<in> set (links d). category x = c \<longrightarrow> sort_index x < sort_index r) \<and>
          ((\<forall>x \<in> set (links d). category x \<noteq> c) \<longrightarrow> sort_index r = 1))) \<and>
   (upd_category link = None \<or> upd_category link = Some (category existing) \<longrightarrow>
      (\<forall>r d'. update_link d i link = (Inr r, d') \<longrightarrow> sort_index r = sort_index existing)) \<and>
   (\<forall>link' r r' d' d''.
       upd_category link' = upd_category link \<and> update_link d i link = (Inr r, d') \<and>
       update_link d i link' = (Inr r', d'') \<longrightarrow> sort_index r' = sort_index r)"
proof (intro conjI allI impI)
  fix c
  assume c: "upd_category link = Some c \<and> c \<noteq> category existing \<and>
        sqlite_int ((if \<exists>x \<in> set (links d). category x = c
                     then Max (sort_index ` {x \<in> set (links d). category x = c}) else 0) + 1)"
  let ?us = "build_updates (links d) existing link"
  let ?r = "fold assign ?us existing"
  let ?d = "d\<lparr>links := update_where_id ?us i (links d)\<rparr>"
  from c have ne: "?us \<noteq> []" by (simp add: build_updates_def)
  from c have "sqlite_int (max_sort_index (links d) c + 1)"
    by (simp only: max_sort_index_eq)
  with c have b: "list_all bindable ?us" by (simp add: bindable_build_updates)
  from assms(2,1) ne b have u: "update_link d i link = (Inr ?r, ?d)"
    by (rule update_link_success)
  have f: "find (\<lambda>r. link_id r = i) (links ?d) = Some ?r"
    using assms by (simp add: find_update_where_id)
  have cat: "category ?r = c" using c by (simp add: category_build_updates)
  have s: "sort_index ?r = max_sort_index (links d) c + 1"
    using c by (simp add: sort_index_build_updates)
  have s1: "sort_index ?r =
            (if \<exists>x \<in> set (links d). category x = c
             then Max (sort_index ` {x \<in> set (links d). category x = c}) else 0) + 1"
    unfolding s by (simp only: max_sort_index_eq)
  have s2: "\<forall>x \<in> set (links d). category x = c \<longrightarrow> sort_index x < sort_index ?r"
    using max_sort_index_upper [of _ "links d" c] s by fastforce
  have s3: "(\<forall>x \<in> set (links d). category x \<noteq> c) \<longrightarrow> sort_index ?r = 1"
    using s by (simp add: max_sort_index_none)
  from u f cat s1 s2 s3
  show "\<exists>r d'. update_link d i link = (Inr r, d') \<and>
          find (\<lambda>r. link_id r = i) (links d') = Some r \<and> category r = c \<and>
          sort_index r =
            (if \<exists>x \<in> set (links d). category x = c
             then Max (sort_index ` {x \<in> set (links d). category x = c}) else 0) + 1 \<and>
          (\<forall>x \<in> set (links d). category x = c \<longrightarrow> sort_index x < sort_index r) \<and>
          ((\<forall>x \<in> set (links d). category x \<noteq> c) \<longrightarrow> sort_index r = 1)"
    by blast
next
  fix r d'
  assume k: "upd_category link = None \<or> upd_category link = Some (category existing)"
    and u: "update_link d i link = (Inr r, d')"
  from update_link_cases [OF assms(1), of link] u
  have "r = fold assign (build_updates (links d) existing link) existing" by auto
  with k show "sort_index r = sort_index existing"
    by (auto simp: sort_index_build_updates)
next
  fix link' r r' d' d''
  assume a: "upd_category link' = upd_category link \<and> update_link d i link = (Inr r, d') \<and>
       update_link d i link' = (Inr r', d'')"
  from update_link_cases [OF assms(1), of link] a
  have r: "r = fold assign (build_updates (links d) existing link) existing" by auto
  from update_link_cases [OF assms(1), of link'] a
  have r': "r' = fold assign (build_updates (links d) existing link') existing" by auto
  from a show "sort_index r' = sort_index r"
    unfolding r r' by (simp add: sort_index_build_updates)
qed

theorem update_link_moves_to_end_witness:
  "find (\<lambda>r. link_id r = 1) (links db_abc) = Some (sample_link 1 ''A'' 1 ''2024-01-01 10:00:00'') \<and>
   sqlite_int 1 \<and>
   (\<exists>r d'. update_link db_abc 1 (move_to ''B'') = (Inr r, d') \<and>
       category r = ''B'' \<and> sort_index r = 2) \<and>
   (\<exists>r d'. update_link db_abc 1 (move_to ''D'') = (Inr r, d') \<and>
       category r = ''D'' \<and> sort_index r = 1) \<and>
   (\<exists>r d'. update_link db_tiebreak 2 (move_to ''A'') = (Inr r, d') \<and>
       category r = ''A'' \<and> sort_index r = 2)"
  using update_link_moves_to_end [of 1 db_abc "sample_link 1 ''A'' 1 ''2024-01-01 10:00:00''" "move_to ''B''"]
  by (simp add: db_abc_def db_tiebreak_def sample_link_def move_to_def no_fields_def
      update_link_def build_updates_def max_sort_index_def update_where_id_def
      fetch_response_def Let_def sqlite_int_def)

subsection \<open>C6: bulk reorder\<close>




subsection \<open>C7: failures of update\<close>

text \<open>
  The id is bound in the first \<^verbatim>\<open>SELECT\<close>, before the check for a missing link: with an id
  outside SQLite's integers, which no link has, the failure is \<^verbatim>\<open>OverflowError\<close> and not
  status 404.
\<close>

theorem update_link_overflow:
  "2 ^ 63 \<notin> link_id ` set (links db_abc) \<and>
   update_link db_abc (2 ^ 63) (move_to ''B'') = (Inl OverflowError, db_abc)"
  by (simp add: update_link_def sqlite_int_def db_abc_def sample_link_def)

text \<open>
  Claim C7, amended: for an id within SQLite's signed 64-bit integers, \<^verbatim>\<open>update_link\<close> fails
  with status 404 when no link has the id, whatever the payload, and with status 400 when
  a link has the id and the payload sets no field; and every failure of \<^verbatim>\<open>update_link\<close>
  leaves the database as it was.
\<close>

theorem update_link_failures:
  "(sqlite_int i \<and> i \<notin> link_id ` set (links d) \<longrightarrow>
      update_link d i link = (Inl (HTTPException 404 ''Link not found''), d)) \<and>
   (sqlite_int i \<and> i \<in> link_id ` set (links d) \<longrightarrow>
      update_link d i no_fields = (Inl (HTTPException 400 ''No fields to update''), d)) \<and>
   (\<forall>e d'. update_link d i link = (Inl e, d') \<longrightarrow> d' = d)"
proof (intro conjI impI allI)
  assume a: "sqlite_int i \<and> i \<notin> link_id ` set (links d)"
  then have "find (\<lambda>r. link_id r = i) (links d) = None" by (simp add: find_id_None)
  with a show "update_link d i link = (Inl (HTTPException 404 ''Link not found''), d)"
    by (simp add: update_link_def)
next
  assume a: "sqlite_int i \<and> i \<in> link_id ` set (links d)"
  then obtain existing where "find (\<lambda>r. link_id r = i) (links d) = Some existing"
    using find_id_None [of i "links d"] by (cases "find (\<lambda>r. link_id r = i) (links d)") auto
  with a show "update_link d i no_fields = (Inl (HTTPException 400 ''No fields to update''), d)"
    by (simp add: update_link_def build_updates_no_fields)
next
  fix e d'
  assume "update_link d i link = (Inl e, d')"
  then show "d' = d" by (rule update_link_failure_unchanged)
qed

theorem update_link_failures_witness:
  "sqlite_int 99 \<and> sqlite_int 2 \<and>
   update_link db_abc 99 (move_to ''B'') = (Inl (HTTPException 404 ''Link not found''), db_abc) \<and>
   update_link db_abc 2 no_fields = (Inl (HTTPException 400 ''No fields to update''), db_abc)"
  using update_link_failures [of 99 db_abc "move_to ''B''"]
    update_link_failures [of 2 db_abc no_fields]
  by (simp add: db_abc_def sample_link_def sqlite_int_def)

subsection \<open>C8: the categories list\<close>

text \<open>
  Claim C8, at an order preference that names a category twice: with one link in
  category B and the stored order B, B, \<^verbatim>\<open>get_categories\<close> returns B twice, so the result is
  not the distinct categories. On the specification's own example the result is as
  claimed (\<open>get_categories_example\<close>), and it is free of repetitions whenever the stored
  order is (\<open>get_categories_distinct\<close>).
\<close>

theorem get_categories_repeats:
  "get_categories db_repeated_order = [''B'', ''B'']"
  by (simp add: db_repeated_order_def eval_defs)

lemma get_categories_example: "get_categories db_abc = [''B'', ''A'', ''C'']"
  by (simp add: db_abc_def eval_defs)

lemma get_categories_distinct:
  assumes "distinct (case category_order d of Some v \<Rightarrow> v | None \<Rightarrow> [])"
  shows "distinct (get_categories d)"
  using assms by (auto simp: get_categories_def Let_def)

subsection \<open>C9: click tracking\<close>

text \<open>
  The id is a parameter of the \<^verbatim>\<open>UPDATE\<close>: with an id outside SQLite's integers the
  operation raises \<^verbatim>\<open>OverflowError\<close>, so it fails the caller.
\<close>

theorem track_click_overflow:
  "track_click db_abc (2 ^ 63) = (Inl OverflowError, db_abc)"
  by (simp add: track_click_def sqlite_int_def)

text \<open>
  Claim C9, amended: for every id within SQLite's signed 64-bit integers, \<^verbatim>\<open>track_click\<close>
  returns its success value; when no link has the id the database is left as it was; in
  general only \<^verbatim>\<open>links\<close> can change, every row keeps its place, every row with another id
  is the same, and a row with the id, its counter being within those integers, has its
  \<^verbatim>\<open>usage_count\<close> raised by exactly 1 and is otherwise the same; after \<open>n\<close> calls such a row
  has its \<^verbatim>\<open>usage_count\<close> raised by \<open>n\<close>, as long as the raised counter is within those
  integers.
\<close>

theorem track_click_counts:
  "(sqlite_int i \<longrightarrow> fst (track_click d i) = Inr ''ok'') \<and>
   (i \<notin> link_id ` set (links d) \<longrightarrow> snd (track_click d i) = d) \<and>
   snd (track_click d i) = d\<lparr>links := links (snd (track_click d i))\<rparr> \<and>
   length (links (snd (track_click d i))) = length (links d) \<and>
   length (links (track_clicks n d i)) = length (links d) \<and>
   (\<forall>k < length (links d). link_id (links d ! k) \<noteq> i \<longrightarrow>
      links (snd (track_click d i)) ! k = links d ! k \<and>
      links (track_clicks n d i) ! k = links d ! k) \<and>
   (sqlite_int i \<longrightarrow>
      (\<forall>k < length (links d).
         link_id (links d ! k) = i \<and> sqlite_int (usage_count (links d ! k)) \<longrightarrow>
         links (snd (track_click d i)) ! k =
           (links d ! k)\<lparr>usage_count := usage_count (links d ! k) + 1\<rparr>)) \<and>
   (sqlite_int i \<longrightarrow>
      (\<forall>k < length (links d).
         link_id (links d ! k) = i \<and> sqlite_int (usage_count (links d ! k)) \<and>
         sqlite_int (usage_count (links d ! k) + int n) \<longrightarrow>
         links (track_clicks n d i) ! k =
           (links d ! k)\<lparr>usage_count := usage_count (links d ! k) + int n\<rparr>))"
proof (intro conjI impI)
  assume "sqlite_int i"
  then show "fst (track_click d i) = Inr ''ok''" by (simp add: track_click_def)
next
  assume "i \<notin> link_id ` set (links d)"
  then have "map (\<lambda>r. if link_id r = i then r\<lparr>usage_count := sql_add_one (usage_count r)\<rparr>
                       else r) (links d) = links d"
    by (intro map_idI) auto
  then show "snd (track_click d i) = d" by (simp add: track_click_def)
next
  show "snd (track_click d i) = d\<lparr>links := links (snd (track_click d i))\<rparr>"
    by (rule track_click_rest)
next
  show "length (links (snd (track_click d i))) = length (links d)"
    by (simp add: track_click_def)
next
  show "length (links (track_clicks n d i)) = length (links d)"
    by (cases "sqlite_int i") (simp_all add: track_clicks_links track_clicks_out_of_range)
next
  show "\<forall>k < length (links d). link_id (links d ! k) \<noteq> i \<longrightarrow>
      links (snd (track_click d i)) ! k = links d ! k \<and>
      links (track_clicks n d i) ! k = links d ! k"
    by (cases "sqlite_int i")
       (simp_all add: track_clicks_links track_click_links track_clicks_out_of_range
          track_click_def)
next
  assume "sqlite_int i"
  then show "\<forall>k < length (links d).
         link_id (links d ! k) = i \<and> sqlite_int (usage_count (links d ! k)) \<longrightarrow>
         links (snd (track_click d i)) ! k =
           (links d ! k)\<lparr>usage_count := usage_count (links d ! k) + 1\<rparr>"
    by (simp add: track_click_links sql_add_one_def)
next
  assume "sqlite_int i"
  then show "\<forall>k < length (links d).
         link_id (links d ! k) = i \<and> sqlite_int (usage_count (links d ! k)) \<and>
         sqlite_int (usage_count (links d ! k) + int n) \<longrightarrow>
         links (track_clicks n d i) ! k =
           (links d ! k)\<lparr>usage_count := usage_count (links d ! k) + int n\<rparr>"
    by (simp add: track_clicks_links sql_add_one_funpow)
qed

theorem track_click_counts_witness:
  "sqlite_int 99 \<and> sqlite_int 2 \<and> 99 \<notin> link_id ` set (links db_abc) \<and>
   track_click db_abc 99 = (Inr ''ok'', db_abc) \<and>
   (1::nat) < length (links db_abc) \<and>
   link_id (links db_abc ! 1) = 2 \<and>
   usage_count (links (snd (track_click db_abc 2)) ! 1) = 1 \<and>
   usage_count (links (track_clicks 3 db_abc 2) ! 1) = 3 \<and>
   links (track_clicks 3 db_abc 2) ! 0 = links db_abc ! 0"
proof -
  have r: "sqlite_int 99" "sqlite_int 2" by (simp_all add: sqlite_int_def)
  have a: "99 \<notin> link_id ` set (links db_abc)" by (simp add: db_abc_def sample_link_def)
  note t99 = track_click_counts [of 99 db_abc 3]
  note t2 = track_click_counts [of 2 db_abc 3]
  from t99 r(1) have f: "fst (track_click db_abc 99) = Inr ''ok''" by blast
  from t99 a have s: "snd (track_click db_abc 99) = db_abc" by blast
  from f s have b: "track_click db_abc 99 = (Inr ''ok'', db_abc)" by (simp add: prod_eq_iff)
  have l: "(1::nat) < length (links db_abc)" "link_id (links db_abc ! 1) = 2"
    "sqlite_int (usage_count (links db_abc ! 1))"
    "sqlite_int (usage_count (links db_abc ! 1) + int 3)"
    "usage_count (links db_abc ! 1) = 0"
    "(0::nat) < length (links db_abc)" "link_id (links db_abc ! 0) \<noteq> 2"
    by (simp_all add: db_abc_def sample_link_def sqlite_int_def)
  from t2 r(2) l have c: "links (snd (track_click db_abc 2)) ! 1 =
      (links db_abc ! 1)\<lparr>usage_count := usage_count (links db_abc ! 1) + 1\<rparr>" by blast
  from t2 r(2) l have e: "links (track_clicks 3 db_abc 2) ! 1 =
      (links db_abc ! 1)\<lparr>usage_count := usage_count (links db_abc ! 1) + int 3\<rparr>" by blast
  from t2 l have g: "links (track_clicks 3 db_abc 2) ! 0 = links db_abc ! 0" by blast
  from r a b l(1,2) c e g l(5) show ?thesis by simp
qed

subsection \<open>C10: issued tokens\<close>

text \<open>
  Claim C10: the token issued for the admin at time \<open>t0\<close> verifies at every time up to its
  expiry, 24 hours after \<open>t0\<close>, and is rejected at every later time; and a token whose
  subject is not the admin is rejected with the same status 403 as an invalid one,
  whatever its signature.
\<close>

theorem token_lifetime_and_identity:
  "(t1 \<le> t0 + 24 * 3600 \<longrightarrow>
      verify_token key (create_access_token key admin_data t0) t1 = Inr ''admin'') \<and>
   (t0 + 24 * 3600 < t1 \<longrightarrow>
      verify_token key (create_access_token key admin_data t0) t1
        = Inl (HTTPException 403 ''Invalid or expired token'')) \<and>
   (claim_sub c \<noteq> Some ''admin'' \<longrightarrow>
      (\<exists>detail. verify_token key (Signed k a c) t1 = Inl (HTTPException 403 detail)))"
proof (intro conjI impI)
  assume "t1 \<le> t0 + 24 * 3600"
  then show "verify_token key (create_access_token key admin_data t0) t1 = Inr ''admin''"
    by (simp add: verify_issued)
next
  assume "t0 + 24 * 3600 < t1"
  then show "verify_token key (create_access_token key admin_data t0) t1
        = Inl (HTTPException 403 ''Invalid or expired token'')"
    by (simp add: verify_issued)
next
  assume "claim_sub c \<noteq> Some ''admin''"
  then show "\<exists>detail. verify_token key (Signed k a c) t1 = Inl (HTTPException 403 detail)"
    by (auto simp add: verify_token_def split: option.splits sum.splits)
qed

theorem token_lifetime_and_identity_witness:
  "verify_token ''s3cret'' (create_access_token ''s3cret'' admin_data 1000) 1000
     = Inr ''admin'' \<and>
   verify_token ''s3cret'' (create_access_token ''s3cret'' admin_data 1000) 87401
     = Inl (HTTPException 403 ''Invalid or expired token'') \<and>
   (\<exists>detail. verify_token ''s3cret''
       (Signed ''s3cret'' ''HS256'' \<lparr>claim_sub = Some ''guest'', claim_exp = None\<rparr>) 1000
         = Inl (HTTPException 403 detail))"
  using token_lifetime_and_identity [where ?t1.0 = 1000 and ?t0.0 = 1000 and key = "''s3cret''"
      and c = "\<lparr>claim_sub = Some ''guest'', claim_exp = None\<rparr>" and k = "''s3cret''"
      and a = "''HS256''"]
    token_lifetime_and_identity [where ?t1.0 = 87401 and ?t0.0 = 1000 and key = "''s3cret''"
      and c = "\<lparr>claim_sub = Some ''guest'', claim_exp = None\<rparr>" and k = "''s3cret''"
      and a = "''HS256''"]
  by simp

end
